theory Spec2Isabelle
  imports Main
begin

section \<open>Strings of the JavaScript runtime\<close>

text \<open>
  A JavaScript string is given by the sequence of its Unicode code points (\<open>72\<close> is
  \<open>H\<close>, \<open>32\<close> the space; a surrogate outside a pair is a code point of its own). Two
  strings are \<open>===\<close> exactly when these sequences are equal. A text literal of the source
  is written \<open>js ''...''\<close>. The empty string is the only falsy string: \<open>if (s)\<close> is
  \<open>s \<noteq> []\<close> and \<open>if (!s)\<close> is \<open>s = []\<close>.
\<close>

type_synonym jsstring = "nat list"

definition js :: "string \<Rightarrow> jsstring" where
  "js s = map of_char s"

text \<open>
  \<open>String.prototype.trim\<close> removes the white space and line terminators of ECMAScript
  from both ends: TAB, LF, VT, FF, CR, SPACE, NBSP, the Unicode space separators,
  LS, PS and the byte order mark.
\<close>

definition is_whitespace :: "nat \<Rightarrow> bool" where
  "is_whitespace c \<longleftrightarrow>
     c = 0x09 \<or> c = 0x0A \<or> c = 0x0B \<or> c = 0x0C \<or> c = 0x0D \<or> c = 0x20 \<or> c = 0xA0
     \<or> c = 0x1680 \<or> (0x2000 \<le> c \<and> c \<le> 0x200A) \<or> c = 0x2028 \<or> c = 0x2029
     \<or> c = 0x202F \<or> c = 0x205F \<or> c = 0x3000 \<or> c = 0xFEFF"

definition trim :: "jsstring \<Rightarrow> jsstring" where
  "trim s = rev (dropWhile is_whitespace (rev (dropWhile is_whitespace s)))"

section \<open>Data model of the top-level component\<close>

datatype Status = Idle | Fetching_data | Judging | Generating_image | Complete | Error

text \<open>
  Modelled from the spec: the \<open>Verdict\<close> type of \<open>./types\<close>, a classification and the
  prompt handed to the image generator.
\<close>

record Verdict =
  classification :: jsstring
  visual_prompt :: jsstring

text \<open>
  What the \<open>error\<close> field holds when it is not \<open>null\<close>: a string, or the value
  \<open>n\<close> that is no string.
\<close>

datatype ErrorValue = Str jsstring | Val nat

record AppState =
  status :: Status
  error :: "ErrorValue option"
  verdict :: "Verdict option"
  generatedImage :: "jsstring option"

record ScanInput =
  type :: jsstring
  content :: jsstring

text \<open>
  A value thrown by one of the external calls. The handler catches it as
  \<open>catch (err: any)\<close>, so it can be any JavaScript value. \<open>Nullish\<close> is \<open>null\<close> or
  \<open>undefined\<close>, on which reading \<open>err.message\<close> throws a \<open>TypeError\<close>. Every other value
  is given by what \<open>err.message\<close> reads: a string (\<open>Text\<close>); a falsy value that is no
  string, such as \<open>undefined\<close> for a value without this property, \<open>null\<close>, \<open>0\<close> or
  \<open>false\<close> (\<open>Falsy\<close>); or any other value, which is truthy (\<open>Truthy n\<close>, with \<open>n\<close>
  naming the value).
\<close>

datatype Message = Falsy | Text jsstring | Truthy nat

datatype Thrown = Nullish | Thrown Message

text \<open>
  The external collaborators imported by the component. Each is an asynchronous call that
  either resolves to a value (\<open>Inr\<close>) or rejects with a thrown value (\<open>Inl\<close>).
\<close>

record Services =
  fetchWikiContent :: "jsstring \<Rightarrow> Thrown + jsstring"
  fetchGithubActivity :: "jsstring \<Rightarrow> Thrown + jsstring"
  fetchRedditActivity :: "jsstring \<Rightarrow> jsstring \<Rightarrow> Thrown + jsstring"
  performDeepResearch :: "jsstring \<Rightarrow> jsstring \<Rightarrow> Thrown + jsstring"
  judgeInput :: "jsstring \<Rightarrow> jsstring \<Rightarrow> Thrown + Verdict"
  generateToyOrCoal :: "jsstring \<Rightarrow> jsstring \<Rightarrow> Thrown + jsstring"

text \<open>
  What an observer of the running component sees, in order: every value given to the
  \<open>state\<close> hook by \<open>setState\<close>, and every external call with its arguments.
\<close>

datatype Call =
    FetchWikiContent jsstring
  | FetchGithubActivity jsstring
  | FetchRedditActivity jsstring jsstring
  | PerformDeepResearch jsstring jsstring
  | JudgeInput jsstring jsstring
  | GenerateToyOrCoal jsstring jsstring
  | DownloadRepo

datatype Event = NewState AppState | Called Call

text \<open>
  The hooks of \<open>App\<close> (\<open>state\<close> to \<open>passwordError\<close>), the browser's local storage,
  the log of observable events, and whether React has unmounted the component: it does so
  when a state updater throws while the component renders, since no error boundary
  encloses \<open>App\<close>. The hooks of an unmounted component keep their last values here.
\<close>

record App =
  state :: AppState
  apiKey :: jsstring
  showKeyModal :: bool
  tempKey :: jsstring
  showExportModal :: bool
  exportPassword :: jsstring
  passwordError :: bool
  localStorage :: "jsstring \<rightharpoonup> jsstring"
  history :: "Event list"
  unmounted :: bool

definition initialApp :: "(jsstring \<rightharpoonup> jsstring) \<Rightarrow> App" where
  "initialApp store =
     \<lparr> state = \<lparr> status = Idle, error = None, verdict = None, generatedImage = None \<rparr>,
       apiKey = [], showKeyModal = False, tempKey = [],
       showExportModal = False, exportPassword = [], passwordError = False,
       localStorage = store, history = [], unmounted = False \<rparr>"

section \<open>API key management\<close>

text \<open>
  The truth value JavaScript gives to a string that may be \<open>null\<close> or \<open>undefined\<close>
  (\<open>None\<close>): only a non-empty string passes \<open>if (v)\<close>.
\<close>

definition truthy :: "jsstring option \<Rightarrow> bool" where
  "truthy v = (case v of None \<Rightarrow> False | Some s \<Rightarrow> s \<noteq> [])"

text \<open>
  The effect run once on mount. \<open>envKey\<close> is \<open>process.env.API_KEY\<close>, fixed at build time
  (\<open>None\<close> when undefined); \<open>localStorage.getItem\<close> gives \<open>null\<close> (\<open>None\<close>) for a key
  that is not stored.
\<close>

definition initializeKey :: "jsstring option \<Rightarrow> App \<Rightarrow> App" where
  "initializeKey envKey a =
     (let storedKey = localStorage a (js ''GEMINI_API_KEY'') in
      if truthy storedKey then a\<lparr>apiKey := the storedKey\<rparr>
      else if truthy envKey then a\<lparr>apiKey := the envKey\<rparr>
      else a)"

definition saveApiKey :: "App \<Rightarrow> App" where
  "saveApiKey a =
     (if trim (tempKey a) \<noteq> [] then
        (let key = trim (tempKey a) in
         a\<lparr> localStorage := (localStorage a)(js ''GEMINI_API_KEY'' \<mapsto> key),
            apiKey := key,
            showKeyModal := False \<rparr>)
      else a)"

section \<open>Scan orchestration\<close>

definition setState :: "(AppState \<Rightarrow> AppState) \<Rightarrow> App \<Rightarrow> App" where
  "setState f a =
     (let s = f (state a) in a\<lparr> state := s, history := history a @ [NewState s] \<rparr>)"

definition call :: "Call \<Rightarrow> App \<Rightarrow> App" where
  "call c a = a\<lparr> history := history a @ [Called c] \<rparr>"

text \<open>
  Step 1 of \<open>handleScan\<close>: the call chosen by the source type (none for any other
  type) and the text it resolves to, or the value it throws.
\<close>

definition fetchData :: "Services \<Rightarrow> ScanInput \<Rightarrow> jsstring \<Rightarrow> Call option \<times> (Thrown + jsstring)" where
  "fetchData sv input key =
     (if type input = js ''wiki'' then
        (Some (FetchWikiContent (content input)), fetchWikiContent sv (content input))
      else if type input = js ''github'' then
        (Some (FetchGithubActivity (content input)), fetchGithubActivity sv (content input))
      else if type input = js ''reddit'' then
        (Some (FetchRedditActivity (content input) key), fetchRedditActivity sv (content input) key)
      else if type input = js ''news'' then
        (Some (PerformDeepResearch (content input) key), performDeepResearch sv (content input) key)
      else (None, Inr (content input)))"

text \<open>
  The body of the \<open>try\<close> block, run on the app as it is after the first \<open>setState\<close>:
  \<open>Inl err\<close> when a step throws \<open>err\<close>, with the app as it was at the throw.
\<close>

definition tryBlock :: "Services \<Rightarrow> ScanInput \<Rightarrow> jsstring \<Rightarrow> App \<Rightarrow> (Thrown + unit) \<times> App" where
  "tryBlock sv input key a1 =
     (let (fetchCall, fetched) = fetchData sv input key;
          a2 = (case fetchCall of Some c \<Rightarrow> call c a1 | None \<Rightarrow> a1)
      in case fetched of
           Inl err \<Rightarrow> (Inl err, a2)
         | Inr textToAnalyze \<Rightarrow>
             (let a3 = setState (\<lambda>prev. prev\<lparr>status := Judging\<rparr>) a2;
                  a4 = call (JudgeInput textToAnalyze key) a3
              in case judgeInput sv textToAnalyze key of
                   Inl err \<Rightarrow> (Inl err, a4)
                 | Inr v \<Rightarrow>
                     (let a5 = setState (\<lambda>prev. prev\<lparr>status := Generating_image, verdict := Some v\<rparr>) a4;
                          a6 = call (GenerateToyOrCoal (visual_prompt v) key) a5
                      in case generateToyOrCoal sv (visual_prompt v) key of
                           Inl err \<Rightarrow> (Inl err, a6)
                         | Inr imageBase64 \<Rightarrow>
                             (Inr (), setState (\<lambda>prev. prev\<lparr>status := Complete,
                                                  generatedImage := Some imageBase64\<rparr>) a6))))"

text \<open>
  \<open>err.message || "Something went wrong in the workshop."\<close>, for the message \<open>m\<close> read
  from a thrown value that is not nullish.
\<close>

definition errorMessage :: "Message \<Rightarrow> ErrorValue" where
  "errorMessage m =
     (case m of
        Text t \<Rightarrow> if t \<noteq> [] then Str t else Str (js ''Something went wrong in the workshop.'')
      | Falsy \<Rightarrow> Str (js ''Something went wrong in the workshop.'')
      | Truthy n \<Rightarrow> Val n)"

text \<open>
  The \<open>catch\<close> block of \<open>handleScan\<close>. It hands \<open>setState\<close> an updater that reads
  \<open>err.message\<close>. React runs the updater when it renders: for a nullish \<open>err\<close> the
  updater throws, the update is not applied and the component is unmounted.
\<close>

definition catchBlock :: "Thrown \<Rightarrow> App \<Rightarrow> App" where
  "catchBlock err a =
     (case err of
        Nullish \<Rightarrow> a\<lparr>unmounted := True\<rparr>
      | Thrown m \<Rightarrow>
          setState (\<lambda>prev. prev\<lparr>status := Error, error := Some (errorMessage m)\<rparr>) a)"

definition handleScan :: "Services \<Rightarrow> ScanInput \<Rightarrow> App \<Rightarrow> App" where
  "handleScan sv input a =
     (if apiKey a = [] then a\<lparr>showKeyModal := True\<rparr>
      else
        (let a1 = setState (\<lambda>prev. prev\<lparr>status := Fetching_data, error := None,
                                        verdict := None, generatedImage := None\<rparr>) a
         in case tryBlock sv input (apiKey a) a1 of
              (Inr _, a') \<Rightarrow> a'
            | (Inl err, a') \<Rightarrow> catchBlock err a'))"

definition isProcessing :: "App \<Rightarrow> bool" where
  "isProcessing a \<longleftrightarrow>
     status (state a) = Fetching_data \<or> status (state a) = Judging
     \<or> status (state a) = Generating_image"

section \<open>Export gate\<close>

text \<open>
  \<open>String.prototype.toUpperCase\<close> replaces every code point by its upper-case form and
  joins the results. Below 128 that is the shift of \<open>a\<close>..\<open>z\<close> (97..122) to
  \<open>A\<close>..\<open>Z\<close> (65..90); from 128 on it is the Unicode table of the runtime,
  \<open>unicodeUpper\<close>, which can give several code points for one.
\<close>

definition asciiUpper :: "nat \<Rightarrow> nat" where
  "asciiUpper c = (if 97 \<le> c \<and> c \<le> 122 then c - 32 else c)"

definition toUpperCase :: "(nat \<Rightarrow> jsstring) \<Rightarrow> jsstring \<Rightarrow> jsstring" where
  "toUpperCase unicodeUpper s =
     concat (map (\<lambda>c. if c < 128 then [asciiUpper c] else unicodeUpper c) s)"

definition handleExportClick :: "App \<Rightarrow> App" where
  "handleExportClick a = a\<lparr> showExportModal := True, exportPassword := [], passwordError := False \<rparr>"

definition handleUnlockSleigh :: "(nat \<Rightarrow> jsstring) \<Rightarrow> App \<Rightarrow> App" where
  "handleUnlockSleigh unicodeUpper a =
     (if toUpperCase unicodeUpper (exportPassword a) = js ''HOHOHO'' then
        (call DownloadRepo a)\<lparr> showExportModal := False \<rparr>
      else a\<lparr> passwordError := True \<rparr>)"

text \<open>
  The spec's reading of the password check: two strings are equal case-insensitively when
  they have the same length and agree position by position, up to the case of the letters
  \<open>A\<close>..\<open>Z\<close> (65..90) and \<open>a\<close>..\<open>z\<close> (97..122).
\<close>

definition sameLetter :: "nat \<Rightarrow> nat \<Rightarrow> bool" where
  "sameLetter c d \<longleftrightarrow>
     c = d \<or> (65 \<le> c \<and> c \<le> 90 \<and> d = c + 32) \<or> (65 \<le> d \<and> d \<le> 90 \<and> c = d + 32)"

definition equalsIgnoringCase :: "jsstring \<Rightarrow> jsstring \<Rightarrow> bool" where
  "equalsIgnoringCase s t \<longleftrightarrow> list_all2 sameLetter s t"

section \<open>The component as a transition system\<close>

text \<open>
  \<open>handleScan\<close> is an \<open>async\<close> function: it runs up to an \<open>await\<close>, is suspended
  there, and goes on when the awaited call has answered; in between, the user can act.
  A suspended scan is at one of the three \<open>await\<close>s of \<open>handleScan\<close>. It holds the
  \<open>apiKey\<close> its closure captured and what the awaited call will answer.
\<close>

datatype Suspended =
    AwaitText jsstring "Thrown + jsstring"
  | AwaitVerdict jsstring "Thrown + Verdict"
  | AwaitImage jsstring "Thrown + jsstring"

text \<open>
  \<open>handleScan\<close> from one \<open>await\<close> to the next: the app after this stretch, and the
  \<open>await\<close> it stops at (\<open>None\<close> when the handler has returned).
\<close>

fun handleScan_resume :: "Services \<Rightarrow> Suspended \<Rightarrow> App \<Rightarrow> App \<times> Suspended option" where
  "handleScan_resume sv (AwaitText key (Inl err)) a = (catchBlock err a, None)"
| "handleScan_resume sv (AwaitText key (Inr textToAnalyze)) a =
     (call (JudgeInput textToAnalyze key) (setState (\<lambda>prev. prev\<lparr>status := Judging\<rparr>) a),
      Some (AwaitVerdict key (judgeInput sv textToAnalyze key)))"
| "handleScan_resume sv (AwaitVerdict key (Inl err)) a = (catchBlock err a, None)"
| "handleScan_resume sv (AwaitVerdict key (Inr v)) a =
     (call (GenerateToyOrCoal (visual_prompt v) key)
        (setState (\<lambda>prev. prev\<lparr>status := Generating_image, verdict := Some v\<rparr>) a),
      Some (AwaitImage key (generateToyOrCoal sv (visual_prompt v) key)))"
| "handleScan_resume sv (AwaitImage key (Inl err)) a = (catchBlock err a, None)"
| "handleScan_resume sv (AwaitImage key (Inr imageBase64)) a =
     (setState (\<lambda>prev. prev\<lparr>status := Complete, generatedImage := Some imageBase64\<rparr>) a, None)"

text \<open>
  \<open>handleScan\<close> from the call to its first \<open>await\<close>. For a source type without a
  fetch there is no \<open>await\<close> before the judge is called.
\<close>

definition handleScan_start :: "Services \<Rightarrow> ScanInput \<Rightarrow> App \<Rightarrow> App \<times> Suspended option" where
  "handleScan_start sv input a =
     (if apiKey a = [] then (a\<lparr>showKeyModal := True\<rparr>, None)
      else
        (let a1 = setState (\<lambda>prev. prev\<lparr>status := Fetching_data, error := None,
                                        verdict := None, generatedImage := None\<rparr>) a;
             (fetchCall, fetched) = fetchData sv input (apiKey a)
         in case fetchCall of
              Some c \<Rightarrow> (call c a1, Some (AwaitText (apiKey a) fetched))
            | None \<Rightarrow> handleScan_resume sv (AwaitText (apiKey a) fetched) a1))"

text \<open>
  What can happen next: the form submits a scan, the call awaited by the \<open>i\<close>-th
  suspended scan answers, or the user uses the key modal or the export modal (the
  \<open>onClick\<close> and \<open>onChange\<close> handlers of the component).
\<close>

datatype Action =
    Submit ScanInput
  | Settle nat
  | OpenKeyModal
  | TypeKey jsstring
  | SaveKey
  | CloseKeyModal
  | ExportClick
  | TypePassword jsstring
  | Unlock
  | CloseExportModal

text \<open>The app and the scans in flight.\<close>

type_synonym Session = "App \<times> Suspended list"

text \<open>
  Modelled from the spec: the \<open>InputForm\<close> component of \<open>./components/InputForm\<close>,
  which is "disabled while a scan is in flight". A disabled form makes no submission
  (\<open>None\<close>); an enabled form calls \<open>onScan\<close> with the input the user submits.
\<close>

definition InputForm :: "(ScanInput \<Rightarrow> 'r) \<Rightarrow> bool \<Rightarrow> ScanInput \<Rightarrow> 'r option" where
  "InputForm onScan disabled input = (if disabled then None else Some (onScan input))"

text \<open>
  What an action does to the session of a mounted component. The form is rendered as
  \<open><InputForm onScan={handleScan} disabled={isProcessing} />\<close>.
\<close>

fun perform :: "Services \<Rightarrow> (nat \<Rightarrow> jsstring) \<Rightarrow> Action \<Rightarrow> Session \<Rightarrow> Session" where
  "perform sv u (Submit input) (a, ps) =
     (case InputForm (\<lambda>input. handleScan_start sv input a) (isProcessing a) input of
        None \<Rightarrow> (a, ps)
      | Some (a', Some p) \<Rightarrow> (a', ps @ [p])
      | Some (a', None) \<Rightarrow> (a', ps))"
| "perform sv u (Settle i) (a, ps) =
     (if i < length ps then
        (case handleScan_resume sv (ps ! i) a of
           (a', Some p) \<Rightarrow> (a', ps[i := p])
         | (a', None) \<Rightarrow> (a', take i ps @ drop (Suc i) ps))
      else (a, ps))"
| "perform sv u OpenKeyModal (a, ps) = (a\<lparr> tempKey := apiKey a, showKeyModal := True \<rparr>, ps)"
| "perform sv u (TypeKey t) (a, ps) = (a\<lparr> tempKey := t \<rparr>, ps)"
| "perform sv u SaveKey (a, ps) = (saveApiKey a, ps)"
| "perform sv u CloseKeyModal (a, ps) = (a\<lparr> showKeyModal := False \<rparr>, ps)"
| "perform sv u ExportClick (a, ps) = (handleExportClick a, ps)"
| "perform sv u (TypePassword p) (a, ps) = (a\<lparr> exportPassword := p, passwordError := False \<rparr>, ps)"
| "perform sv u Unlock (a, ps) = (handleUnlockSleigh u a, ps)"
| "perform sv u CloseExportModal (a, ps) = (a\<lparr> showExportModal := False \<rparr>, ps)"

text \<open>
  One action on the session. An unmounted component has no form, no modal and no button:
  the user's actions do nothing to it.
\<close>

definition step :: "Services \<Rightarrow> (nat \<Rightarrow> jsstring) \<Rightarrow> Action \<Rightarrow> Session \<Rightarrow> Session" where
  "step sv u act s =
     (case act of
        Settle i \<Rightarrow> perform sv u act s
      | _ \<Rightarrow> if unmounted (fst s) then s else perform sv u act s)"

fun run :: "Services \<Rightarrow> (nat \<Rightarrow> jsstring) \<Rightarrow> Action list \<Rightarrow> Session \<Rightarrow> Session" where
  "run sv u [] s = s"
| "run sv u (act # acts) s = run sv u acts (step sv u act s)"

text \<open>The session after mount: the initial hooks, the key initialised, no scan in flight.\<close>

definition mount :: "jsstring option \<Rightarrow> (jsstring \<rightharpoonup> jsstring) \<Rightarrow> Session" where
  "mount envKey store = (initializeKey envKey (initialApp store), [])"

text \<open>The status a scan suspended at an \<open>await\<close> has set.\<close>

fun phase :: "Suspended \<Rightarrow> Status" where
  "phase (AwaitText key r) = Fetching_data"
| "phase (AwaitVerdict key r) = Judging"
| "phase (AwaitImage key r) = Generating_image"

text \<open>
  The invariant: no scan is in flight, and the status is no working phase or the component
  is unmounted; or one scan is in flight, the component is mounted and the status is the
  phase of the scan's \<open>await\<close>.
\<close>

definition oneScan :: "Session \<Rightarrow> bool" where
  "oneScan s \<longleftrightarrow>
     (case snd s of
        [] \<Rightarrow> \<not> isProcessing (fst s) \<or> unmounted (fst s)
      | [p] \<Rightarrow> status (state (fst s)) = phase p \<and> \<not> unmounted (fst s)
      | _ \<Rightarrow> False)"

section \<open>Reading the log\<close>

text \<open>The events a call to \<open>handleScan\<close> adds to the log of \<open>a\<close>.\<close>

definition scanEvents :: "Services \<Rightarrow> ScanInput \<Rightarrow> App \<Rightarrow> Event list" where
  "scanEvents sv input a = drop (length (history a)) (history (handleScan sv input a))"

fun states :: "Event list \<Rightarrow> AppState list" where
  "states [] = []"
| "states (NewState s # es) = s # states es"
| "states (Called c # es) = states es"

fun calls :: "Event list \<Rightarrow> Call list" where
  "calls [] = []"
| "calls (NewState s # es) = calls es"
| "calls (Called c # es) = c # calls es"

definition fetchEvents :: "Call option \<Rightarrow> Event list" where
  "fetchEvents c = (case c of Some x \<Rightarrow> [Called x] | None \<Rightarrow> [])"

text \<open>The calls of steps 2 and 3 of a scan that judges \<open>textToAnalyze\<close>.\<close>

definition judgeCalls :: "Services \<Rightarrow> jsstring \<Rightarrow> jsstring \<Rightarrow> Call list" where
  "judgeCalls sv textToAnalyze key =
     JudgeInput textToAnalyze key #
     (case judgeInput sv textToAnalyze key of
        Inl err \<Rightarrow> []
      | Inr v \<Rightarrow> [GenerateToyOrCoal (visual_prompt v) key])"

text \<open>The four fields of the state hook, side by side.\<close>

definition observe :: "App \<Rightarrow> Status \<times> ErrorValue option \<times> Verdict option \<times> jsstring option" where
  "observe a = (status (state a), error (state a), verdict (state a), generatedImage (state a))"

section \<open>Sample inputs\<close>

text \<open>The app with the key modal open and \<open>t\<close> typed into its field.\<close>

definition keyModalWith :: "jsstring \<Rightarrow> App" where
  "keyModalWith t = (initialApp Map.empty)\<lparr> showKeyModal := True, tempKey := t \<rparr>"

text \<open>The app after start-up with the key \<open>k\<close>.\<close>

definition withKey :: "jsstring \<Rightarrow> App" where
  "withKey k = (initialApp Map.empty)\<lparr> apiKey := k \<rparr>"

text \<open>
  A set of collaborators: the encyclopedia and the research call answer, the
  source-control call throws an error with a message, the social-media call throws a value
  without a message, the judge throws an error with an empty message on the text
  \<open>coal\<close>, and the image call throws for the key \<open>no-image\<close>.
\<close>

definition workshop :: Services where
  "workshop =
     \<lparr> fetchWikiContent = (\<lambda>title. Inr (js ''Rudolph is a reindeer'')),
       fetchGithubActivity = (\<lambda>user. Inl (Thrown (Text (js ''User not found'')))),
       fetchRedditActivity = (\<lambda>user key. Inl (Thrown Falsy)),
       performDeepResearch = (\<lambda>topic key. Inr (js ''Reindeer news'')),
       judgeInput = (\<lambda>text key.
          if text = js ''coal'' then Inl (Thrown (Text []))
          else Inr \<lparr> classification = js ''nice'', visual_prompt = js ''a toy reindeer'' \<rparr>),
       generateToyOrCoal = (\<lambda>prompt key.
          if key = js ''no-image'' then Inl (Thrown (Text (js ''Image quota exceeded'')))
          else Inr (js ''iVBORw0KGgo='')) \<rparr>"

text \<open>
  The same collaborators, except that the source-control call and the image call reject
  with \<open>null\<close> or \<open>undefined\<close>, as \<open>Promise.reject()\<close> does.
\<close>

definition silentWorkshop :: Services where
  "silentWorkshop =
     workshop\<lparr> fetchGithubActivity := (\<lambda>user. Inl Nullish),
                generateToyOrCoal := (\<lambda>prompt key. Inl Nullish) \<rparr>"

definition scanOf :: "string \<Rightarrow> string \<Rightarrow> ScanInput" where
  "scanOf t c = \<lparr> type = js t, content = js c \<rparr>"

text \<open>The app after a scan that ended in the error state, with an older verdict and image.\<close>

definition afterError :: App where
  "afterError = (withKey (js ''k''))\<lparr> state :=
     \<lparr> status = Error, error = Some (Str (js ''User not found'')),
       verdict = Some \<lparr> classification = js ''naughty'', visual_prompt = js ''a lump of coal'' \<rparr>,
       generatedImage = Some (js ''b2xk'') \<rparr> \<rparr>"

text \<open>The app with the export modal open and \<open>p\<close> typed into its field.\<close>

definition exportModalWith :: "jsstring \<Rightarrow> App" where
  "exportModalWith p = (initialApp Map.empty)\<lparr> showExportModal := True, exportPassword := p \<rparr>"

text \<open>A stand-in for the Unicode table that leaves the characters from 128 on as they are.\<close>

definition keepNonAscii :: "nat \<Rightarrow> jsstring" where
  "keepNonAscii c = [c]"

text \<open>
  A session: the user saves the key \<open>k\<close>, submits a scan of the page \<open>Rudolph\<close>, tries
  to submit another scan, and the encyclopedia answers.
\<close>

definition busySession :: Session where
  "busySession =
     run workshop keepNonAscii
       [OpenKeyModal, TypeKey (js '' k ''), SaveKey,
        Submit (scanOf ''wiki'' ''Rudolph''), Submit (scanOf ''github'' ''santa''), Settle 0]
       (mount None Map.empty)"

text \<open>The same session after the judge and the image call have answered too.\<close>

definition finishedSession :: Session where
  "finishedSession = run workshop keepNonAscii [Settle 0, Settle 0] busySession"

text \<open>
  A session in which the source-control call rejects with \<open>null\<close>: the user saves the key
  \<open>k\<close>, submits a scan of the user \<open>santa\<close>, and the call answers.
\<close>

definition crashedSession :: Session where
  "crashedSession =
     run silentWorkshop keepNonAscii
       [OpenKeyModal, TypeKey (js ''k''), SaveKey, Submit (scanOf ''github'' ''santa''), Settle 0]
       (mount None Map.empty)"

section \<open>Facts about strings\<close>

lemma js_Nil [simp]: "js [] = []" by (simp add: js_def)
lemma js_Cons [simp]: "js (c # cs) = of_char c # js cs" by (simp add: js_def)

lemma dropWhile_all_iff: "(\<forall>c\<in>set (dropWhile P s). P c) \<longleftrightarrow> (\<forall>c\<in>set s. P c)"
proof
  assume h: "\<forall>c\<in>set (dropWhile P s). P c"
  have "dropWhile P s = []"
  proof (rule ccontr)
    assume ne: "dropWhile P s \<noteq> []"
    then have "\<not> P (hd (dropWhile P s))" by (rule hd_dropWhile)
    moreover from ne have "hd (dropWhile P s) \<in> set (dropWhile P s)" by (rule hd_in_set)
    ultimately show False using h by blast
  qed
  then show "\<forall>c\<in>set s. P c" by (simp add: dropWhile_eq_Nil_conv)
next
  assume "\<forall>c\<in>set s. P c"
  then show "\<forall>c\<in>set (dropWhile P s). P c" by (blast dest: set_dropWhileD)
qed

lemma trim_eq_Nil: "trim s = [] \<longleftrightarrow> (\<forall>c\<in>set s. is_whitespace c)"
  by (simp add: trim_def dropWhile_eq_Nil_conv dropWhile_all_iff)

lemma trim_decompose:
  "\<exists>l r. s = l @ trim s @ r \<and> (\<forall>c\<in>set l. is_whitespace c) \<and> (\<forall>c\<in>set r. is_whitespace c)"
proof -
  let ?P = is_whitespace
  let ?m = "dropWhile ?P s"
  have 1: "s = takeWhile ?P s @ ?m" by simp
  have 2: "rev ?m = takeWhile ?P (rev ?m) @ dropWhile ?P (rev ?m)" by simp
  have "?m = rev (dropWhile ?P (rev ?m)) @ rev (takeWhile ?P (rev ?m))"
    by (metis 2 rev_append rev_rev_ident)
  then have "s = takeWhile ?P s @ trim s @ rev (takeWhile ?P (rev ?m))"
    using 1 by (simp add: trim_def)
  moreover have "\<forall>c\<in>set (takeWhile ?P s). ?P c" by (blast dest: set_takeWhileD)
  moreover have "\<forall>c\<in>set (rev (takeWhile ?P (rev ?m))). ?P c" by (auto dest: set_takeWhileD)
  ultimately show ?thesis by blast
qed

lemma trim_ends:
  assumes "trim s \<noteq> []"
  shows "\<not> is_whitespace (hd (trim s)) \<and> \<not> is_whitespace (last (trim s))"
proof -
  let ?P = is_whitespace
  let ?m = "dropWhile ?P s"
  let ?k = "dropWhile ?P (rev ?m)"
  from assms have k: "?k \<noteq> []" by (simp add: trim_def)
  then have "\<not> ?P (hd ?k)" by (rule hd_dropWhile)
  then have last: "\<not> ?P (last (trim s))" using k by (simp add: trim_def last_rev)
  have m: "?m \<noteq> []"
  proof
    assume "?m = []"
    then have "?k = []" by (simp add: dropWhile_all_iff)
    with k show False ..
  qed
  then have hm: "\<not> ?P (hd ?m)" by (rule hd_dropWhile)
  have "\<exists>r. ?m = trim s @ r"
    by (metis trim_def takeWhile_dropWhile_id rev_append rev_rev_ident)
  then obtain r where "?m = trim s @ r" ..
  with assms have "hd ?m = hd (trim s)" by (metis hd_append2)
  with hm last show ?thesis by simp
qed

section \<open>Upper case and the password\<close>

text \<open>
  The only assumption on the runtime's Unicode table: the upper-case form of a character
  from 128 on contains a character other than \<open>H\<close> (72) and \<open>O\<close> (79).
\<close>

lemma asciiUpper_eq_capital:
  assumes "65 \<le> d" and "d \<le> 90"
  shows "asciiUpper c = d \<longleftrightarrow> sameLetter c d"
  using assms by (auto simp add: asciiUpper_def sameLetter_def)

lemma map_asciiUpper_eq_capitals:
  assumes "\<forall>d\<in>set t. 65 \<le> d \<and> d \<le> 90"
  shows "map asciiUpper s = t \<longleftrightarrow> list_all2 sameLetter s t"
  using assms
proof (induction s arbitrary: t)
  case Nil
  then show ?case by auto
next
  case (Cons c s)
  show ?case
  proof (cases t)
    case Nil
    then show ?thesis by simp
  next
    case (Cons d t')
    with Cons.prems have d: "65 \<le> d" "d \<le> 90" and t': "\<forall>d\<in>set t'. 65 \<le> d \<and> d \<le> 90"
      by simp_all
    from Cons.IH [OF t'] asciiUpper_eq_capital [OF d, of c] Cons show ?thesis by simp
  qed
qed

lemma toUpperCase_Nil [simp]: "toUpperCase u [] = []"
  by (simp add: toUpperCase_def)

lemma toUpperCase_Cons:
  "toUpperCase u (c # s) = (if c < 128 then [asciiUpper c] else u c) @ toUpperCase u s"
  by (simp add: toUpperCase_def)

lemma toUpperCase_ascii:
  "\<forall>c\<in>set s. c < 128 \<Longrightarrow> toUpperCase u s = map asciiUpper s"
  by (induction s) (simp_all add: toUpperCase_Cons)

lemma toUpperCase_capitals_ascii:
  assumes runtime: "\<And>c. 128 \<le> c \<Longrightarrow> \<exists>d\<in>set (u c). d \<noteq> 72 \<and> d \<noteq> 79"
    and "\<forall>d\<in>set (toUpperCase u s). d = 72 \<or> d = 79"
  shows "\<forall>c\<in>set s. c < 128"
  using assms(2)
proof (induction s)
  case Nil
  then show ?case by simp
next
  case (Cons c s)
  have "c < 128"
  proof (rule ccontr)
    assume "\<not> c < 128"
    then have c: "128 \<le> c" by simp
    from runtime [OF c] obtain d where "d \<in> set (u c)" "d \<noteq> 72 \<and> d \<noteq> 79" by blast
    with c Cons.prems show False by (auto simp add: toUpperCase_Cons)
  qed
  with Cons show ?case by (simp add: toUpperCase_Cons)
qed

lemma sameLetter_HO_ascii: "sameLetter c d \<Longrightarrow> d = 72 \<or> d = 79 \<Longrightarrow> c < 128"
  by (auto simp add: sameLetter_def)

lemma list_all2_sameLetter_ascii:
  "list_all2 sameLetter s t \<Longrightarrow> \<forall>d\<in>set t. d = 72 \<or> d = 79 \<Longrightarrow> \<forall>c\<in>set s. c < 128"
  by (induction rule: list_all2_induct) (auto dest: sameLetter_HO_ascii)

lemma unlock_iff:
  assumes runtime: "\<And>c. 128 \<le> c \<Longrightarrow> \<exists>d\<in>set (u c). d \<noteq> 72 \<and> d \<noteq> 79"
  shows "toUpperCase u s = js ''HOHOHO'' \<longleftrightarrow> equalsIgnoringCase s (js ''HOHOHO'')"
proof -
  have caps: "\<forall>d\<in>set (js ''HOHOHO''). 65 \<le> d \<and> d \<le> 90" by simp
  have ho: "\<forall>d\<in>set (js ''HOHOHO''). d = 72 \<or> d = 79" by simp
  show ?thesis
  proof
    assume eq: "toUpperCase u s = js ''HOHOHO''"
    with ho have "\<forall>d\<in>set (toUpperCase u s). d = 72 \<or> d = 79" by simp
    with runtime have "\<forall>c\<in>set s. c < 128" by (rule toUpperCase_capitals_ascii)
    then have "toUpperCase u s = map asciiUpper s" by (rule toUpperCase_ascii)
    with eq have "map asciiUpper s = js ''HOHOHO''" by simp
    with map_asciiUpper_eq_capitals [OF caps] show "equalsIgnoringCase s (js ''HOHOHO'')"
      by (simp add: equalsIgnoringCase_def)
  next
    assume "equalsIgnoringCase s (js ''HOHOHO'')"
    then have l: "list_all2 sameLetter s (js ''HOHOHO'')" by (simp add: equalsIgnoringCase_def)
    from l ho have "\<forall>c\<in>set s. c < 128" by (rule list_all2_sameLetter_ascii)
    then have "toUpperCase u s = map asciiUpper s" by (rule toUpperCase_ascii)
    with l map_asciiUpper_eq_capitals [OF caps] show "toUpperCase u s = js ''HOHOHO''" by simp
  qed
qed

section \<open>Facts about the samples\<close>

lemma withKey_simps [simp]:
  "apiKey (withKey k) = k" "history (withKey k) = []" "unmounted (withKey k) = False"
  by (simp_all add: withKey_def initialApp_def)

lemma scanOf_simps [simp]: "type (scanOf t c) = js t" "content (scanOf t c) = js c"
  by (simp_all add: scanOf_def)

lemma workshop_simps [simp]:
  "fetchWikiContent workshop title = Inr (js ''Rudolph is a reindeer'')"
  "fetchGithubActivity workshop user = Inl (Thrown (Text (js ''User not found'')))"
  "fetchRedditActivity workshop user key = Inl (Thrown Falsy)"
  "performDeepResearch workshop topic key = Inr (js ''Reindeer news'')"
  "judgeInput workshop text key =
     (if text = js ''coal'' then Inl (Thrown (Text []))
      else Inr \<lparr> classification = js ''nice'', visual_prompt = js ''a toy reindeer'' \<rparr>)"
  "generateToyOrCoal workshop prompt key =
     (if key = js ''no-image'' then Inl (Thrown (Text (js ''Image quota exceeded'')))
      else Inr (js ''iVBORw0KGgo=''))"
  by (simp_all add: workshop_def)

lemma silentWorkshop_simps [simp]:
  "fetchWikiContent silentWorkshop title = Inr (js ''Rudolph is a reindeer'')"
  "fetchGithubActivity silentWorkshop user = Inl Nullish"
  "judgeInput silentWorkshop text key =
     (if text = js ''coal'' then Inl (Thrown (Text []))
      else Inr \<lparr> classification = js ''nice'', visual_prompt = js ''a toy reindeer'' \<rparr>)"
  "generateToyOrCoal silentWorkshop prompt key = Inl Nullish"
  by (simp_all add: silentWorkshop_def workshop_def)

section \<open>The catch block\<close>

lemma catchBlock_Nullish [simp]: "catchBlock Nullish a = a\<lparr>unmounted := True\<rparr>"
  by (simp add: catchBlock_def)

lemma catchBlock_Thrown [simp]:
  "catchBlock (Thrown m) a =
     a\<lparr> state := (state a)\<lparr>status := Error, error := Some (errorMessage m)\<rparr>,
        history := history a
          @ [NewState ((state a)\<lparr>status := Error, error := Some (errorMessage m)\<rparr>)] \<rparr>"
  by (simp add: catchBlock_def setState_def Let_def)

lemma errorMessage_cases:
  "errorMessage m \<noteq> Str []
   \<and> (\<forall>t. m = Text t \<and> t \<noteq> [] \<longrightarrow> errorMessage m = Str t)
   \<and> (m = Falsy \<or> m = Text [] \<longrightarrow>
         errorMessage m = Str (js ''Something went wrong in the workshop.''))
   \<and> (\<forall>n. m = Truthy n \<longrightarrow> errorMessage m = Val n)"
  by (cases m) (auto simp add: errorMessage_def)

section \<open>The four outcomes of a scan\<close>

text \<open>
  With a key present, a scan ends in one of four ways: the fetch throws, the judge
  throws, the image call throws, or all three succeed. Each lemma gives the whole app the
  handler returns; after a throw it is what the \<open>catch\<close> block makes of the app as it
  was at the throw.
\<close>

lemma handleScan_fetch_throws:
  assumes "apiKey a \<noteq> []" and "fetchData sv input (apiKey a) = (c, Inl err)"
  shows "handleScan sv input a =
    catchBlock err
      (a\<lparr> state := \<lparr> status = Fetching_data, error = None, verdict = None, generatedImage = None \<rparr>,
          history := history a
            @ [NewState \<lparr> status = Fetching_data, error = None, verdict = None, generatedImage = None \<rparr>]
            @ fetchEvents c \<rparr>)"
  using assms
  by (cases c; cases err; cases "state a")
    (simp_all add: handleScan_def tryBlock_def setState_def call_def fetchEvents_def Let_def)

lemma handleScan_judge_throws:
  assumes "apiKey a \<noteq> []" and "fetchData sv input (apiKey a) = (c, Inr textToAnalyze)"
    and "judgeInput sv textToAnalyze (apiKey a) = Inl err"
  shows "handleScan sv input a =
    catchBlock err
      (a\<lparr> state := \<lparr> status = Judging, error = None, verdict = None, generatedImage = None \<rparr>,
          history := history a
            @ [NewState \<lparr> status = Fetching_data, error = None, verdict = None, generatedImage = None \<rparr>]
            @ fetchEvents c
            @ [NewState \<lparr> status = Judging, error = None, verdict = None, generatedImage = None \<rparr>,
               Called (JudgeInput textToAnalyze (apiKey a))] \<rparr>)"
  using assms
  by (cases c; cases err; cases "state a")
    (simp_all add: handleScan_def tryBlock_def setState_def call_def fetchEvents_def Let_def)

lemma handleScan_image_throws:
  assumes "apiKey a \<noteq> []" and "fetchData sv input (apiKey a) = (c, Inr textToAnalyze)"
    and "judgeInput sv textToAnalyze (apiKey a) = Inr v"
    and "generateToyOrCoal sv (visual_prompt v) (apiKey a) = Inl err"
  shows "handleScan sv input a =
    catchBlock err
      (a\<lparr> state := \<lparr> status = Generating_image, error = None, verdict = Some v,
                       generatedImage = None \<rparr>,
          history := history a
            @ [NewState \<lparr> status = Fetching_data, error = None, verdict = None, generatedImage = None \<rparr>]
            @ fetchEvents c
            @ [NewState \<lparr> status = Judging, error = None, verdict = None, generatedImage = None \<rparr>,
               Called (JudgeInput textToAnalyze (apiKey a)),
               NewState \<lparr> status = Generating_image, error = None, verdict = Some v,
                          generatedImage = None \<rparr>,
               Called (GenerateToyOrCoal (visual_prompt v) (apiKey a))] \<rparr>)"
  using assms
  by (cases c; cases err; cases "state a")
    (simp_all add: handleScan_def tryBlock_def setState_def call_def fetchEvents_def Let_def)

lemma handleScan_completes:
  assumes "apiKey a \<noteq> []" and "fetchData sv input (apiKey a) = (c, Inr textToAnalyze)"
    and "judgeInput sv textToAnalyze (apiKey a) = Inr v"
    and "generateToyOrCoal sv (visual_prompt v) (apiKey a) = Inr imageBase64"
  shows "handleScan sv input a =
    a\<lparr> state := \<lparr> status = Complete, error = None,
                     verdict = Some v, generatedImage = Some imageBase64 \<rparr>,
       history := history a
         @ [NewState \<lparr> status = Fetching_data, error = None, verdict = None, generatedImage = None \<rparr>]
         @ fetchEvents c
         @ [NewState \<lparr> status = Judging, error = None, verdict = None, generatedImage = None \<rparr>,
            Called (JudgeInput textToAnalyze (apiKey a)),
            NewState \<lparr> status = Generating_image, error = None, verdict = Some v, generatedImage = None \<rparr>,
            Called (GenerateToyOrCoal (visual_prompt v) (apiKey a)),
            NewState \<lparr> status = Complete, error = None,
                        verdict = Some v, generatedImage = Some imageBase64 \<rparr>] \<rparr>"
  using assms
  by (cases c; cases "state a")
    (simp_all add: handleScan_def tryBlock_def setState_def call_def fetchEvents_def Let_def)

text \<open>One of the four outcomes always applies.\<close>

lemma scan_outcomes:
  obtains (fetch_throws) c err where "fetchData sv input key = (c, Inl err)"
  | (judge_throws) c t err where "fetchData sv input key = (c, Inr t)" "judgeInput sv t key = Inl err"
  | (image_throws) c t v err where "fetchData sv input key = (c, Inr t)" "judgeInput sv t key = Inr v"
      "generateToyOrCoal sv (visual_prompt v) key = Inl err"
  | (completes) c t v img where "fetchData sv input key = (c, Inr t)" "judgeInput sv t key = Inr v"
      "generateToyOrCoal sv (visual_prompt v) key = Inr img"
proof (cases "fetchData sv input key")
  case (Pair c r)
  show ?thesis
  proof (cases r)
    case (Inl err)
    with Pair show ?thesis by (auto intro: fetch_throws)
  next
    case (Inr t)
    note t = this
    show ?thesis
    proof (cases "judgeInput sv t key")
      case (Inl err)
      with Pair t show ?thesis by (auto intro: judge_throws)
    next
      case (Inr v)
      note v = this
      show ?thesis
      proof (cases "generateToyOrCoal sv (visual_prompt v) key")
        case (Inl err)
        with Pair t v show ?thesis by (auto intro: image_throws)
      next
        case (Inr img)
        with Pair t v show ?thesis by (auto intro: completes)
      qed
    qed
  qed
qed

lemma calls_append [simp]: "calls (es @ fs) = calls es @ calls fs"
  by (induction es rule: calls.induct) simp_all

lemma states_append [simp]: "states (es @ fs) = states es @ states fs"
  by (induction es rule: states.induct) simp_all

lemma calls_fetchEvents [simp]: "calls (fetchEvents c) = (case c of Some x \<Rightarrow> [x] | None \<Rightarrow> [])"
  by (simp add: fetchEvents_def split: option.splits)

lemma states_fetchEvents [simp]: "states (fetchEvents c) = []"
  by (simp add: fetchEvents_def split: option.splits)

lemma scanEvents_calls:
  assumes "apiKey a \<noteq> []"
  shows "calls (scanEvents sv input a) =
     (case fst (fetchData sv input (apiKey a)) of Some x \<Rightarrow> [x] | None \<Rightarrow> []) @
     (case snd (fetchData sv input (apiKey a)) of
        Inl err \<Rightarrow> []
      | Inr t \<Rightarrow> judgeCalls sv t (apiKey a))"
proof (cases rule: scan_outcomes [of sv input "apiKey a"])
  case (fetch_throws c err)
  with assms show ?thesis
    by (cases err) (simp_all add: scanEvents_def handleScan_fetch_throws)
next
  case (judge_throws c t err)
  with assms show ?thesis
    by (cases err) (simp_all add: scanEvents_def handleScan_judge_throws judgeCalls_def)
next
  case (image_throws c t v err)
  with assms show ?thesis
    by (cases err) (simp_all add: scanEvents_def handleScan_image_throws judgeCalls_def)
next
  case (completes c t v img)
  with assms show ?thesis
    by (simp add: scanEvents_def handleScan_completes judgeCalls_def)
qed

text \<open>
  Nothing of the state before a scan is left after it: the first update overwrites all
  four fields.
\<close>

lemma handleScan_forgets:
  assumes "apiKey a \<noteq> []"
  shows "handleScan sv input (a\<lparr>state := s\<rparr>) = handleScan sv input a"
  using assms by (cases s; cases "state a") (simp add: handleScan_def setState_def Let_def)

section \<open>One scan at a time\<close>

lemma state_setState [simp]: "state (setState f a) = f (state a)"
  by (simp add: setState_def Let_def)

lemma state_call [simp]: "state (call c a) = state a"
  by (simp add: call_def)

lemma unmounted_setState [simp]: "unmounted (setState f a) = unmounted a"
  by (simp add: setState_def Let_def)

lemma unmounted_call [simp]: "unmounted (call c a) = unmounted a"
  by (simp add: call_def)

lemma catchBlock_done: "\<not> isProcessing (catchBlock err a) \<or> unmounted (catchBlock err a)"
  by (cases err) (simp_all add: isProcessing_def)

lemma phase_working:
  "phase p = Fetching_data \<or> phase p = Judging \<or> phase p = Generating_image"
  by (cases p) simp_all

lemma handleScan_resume_phase:
  "handleScan_resume sv p a = (a', Some q) \<Longrightarrow>
     status (state a') = phase q \<and> unmounted a' = unmounted a"
  by (cases "(sv, p, a)" rule: handleScan_resume.cases) auto

lemma handleScan_resume_done:
  "handleScan_resume sv p a = (a', None) \<Longrightarrow> \<not> isProcessing a' \<or> unmounted a'"
  using catchBlock_done
  by (cases "(sv, p, a)" rule: handleScan_resume.cases) (auto simp add: isProcessing_def)

lemma handleScan_start_phase:
  "handleScan_start sv input a = (a', Some q) \<Longrightarrow>
     status (state a') = phase q \<and> unmounted a' = unmounted a"
  by (cases "fetchData sv input (apiKey a)"; cases "fst (fetchData sv input (apiKey a))")
    (auto simp add: handleScan_start_def Let_def dest: handleScan_resume_phase split: if_splits)

lemma handleScan_start_done:
  "\<not> isProcessing a \<Longrightarrow> handleScan_start sv input a = (a', None) \<Longrightarrow>
     \<not> isProcessing a' \<or> unmounted a'"
  by (cases "fetchData sv input (apiKey a)"; cases "fst (fetchData sv input (apiKey a))")
    (auto simp add: handleScan_start_def Let_def isProcessing_def dest: handleScan_resume_done
      split: if_splits)

lemma oneScan_idle:
  assumes "oneScan (a, ps)" and "\<not> isProcessing a"
  shows "ps = []"
  using assms phase_working [of "hd ps"]
  by (cases ps; cases "tl ps") (auto simp add: oneScan_def isProcessing_def)

lemma oneScan_perform:
  assumes inv: "oneScan (a, ps)" and mounted: "\<not> unmounted a"
  shows "oneScan (perform sv u act (a, ps))"
proof (cases act)
  case (Submit input)
  show ?thesis
  proof (cases "isProcessing a")
    case True
    with inv Submit show ?thesis by (simp add: InputForm_def)
  next
    case False
    with inv have ps: "ps = []" by (rule oneScan_idle)
    obtain a' q where b: "handleScan_start sv input a = (a', q)"
      by (cases "handleScan_start sv input a")
    show ?thesis
    proof (cases q)
      case None
      with b False Submit ps handleScan_start_done [of a sv input a'] show ?thesis
        by (simp add: oneScan_def InputForm_def)
    next
      case (Some p)
      with b False mounted Submit ps handleScan_start_phase [of sv input a a' p] show ?thesis
        by (simp add: oneScan_def InputForm_def)
    qed
  qed
next
  case (Settle i)
  show ?thesis
  proof (cases "i < length ps")
    case False
    with inv Settle show ?thesis by simp
  next
    case True
    with inv obtain p where ps: "ps = [p]" and i: "i = 0"
      by (cases ps; cases "tl ps") (auto simp add: oneScan_def)
    obtain a' q where r: "handleScan_resume sv p a = (a', q)"
      by (cases "handleScan_resume sv p a")
    show ?thesis
    proof (cases q)
      case None
      with r Settle ps i handleScan_resume_done [of sv p a a'] show ?thesis
        by (simp add: oneScan_def)
    next
      case (Some p')
      with r mounted Settle ps i handleScan_resume_phase [of sv p a a' p'] show ?thesis
        by (simp add: oneScan_def)
    qed
  qed
qed (use inv in \<open>auto simp add: oneScan_def isProcessing_def saveApiKey_def Let_def
      handleExportClick_def handleUnlockSleigh_def call_def split: list.splits\<close>)

lemma oneScan_unmounted:
  assumes "oneScan (a, ps)" and "unmounted a"
  shows "ps = []"
  using assms by (cases ps; cases "tl ps") (auto simp add: oneScan_def)

lemma oneScan_step: "oneScan s \<Longrightarrow> oneScan (step sv u act s)"
proof -
  assume inv: "oneScan s"
  obtain a ps where s: "s = (a, ps)" by (cases s)
  show ?thesis
  proof (cases "unmounted a")
    case False
    with inv s have "oneScan (perform sv u act s)" by (simp add: oneScan_perform)
    with False s show ?thesis by (cases act) (simp_all add: step_def)
  next
    case True
    with inv s have "ps = []" by (simp add: oneScan_unmounted)
    with inv s True show ?thesis by (cases act) (simp_all add: step_def)
  qed
qed

lemma oneScan_run: "oneScan s \<Longrightarrow> oneScan (run sv u acts s)"
  by (induction acts arbitrary: s) (simp_all add: oneScan_step)

lemma oneScan_mount: "oneScan (mount envKey store)"
  by (simp add: oneScan_def mount_def initializeKey_def initialApp_def isProcessing_def Let_def)

text \<open>
  Submitting a scan and letting its awaited calls answer one after the other is
  \<open>handleScan\<close> run from start to end.
\<close>

lemma handleScan_stepwise:
  assumes "\<not> isProcessing a" and "\<not> unmounted a"
  shows "run sv u [Submit input, Settle 0, Settle 0, Settle 0] (a, []) = (handleScan sv input a, [])"
proof (cases "apiKey a = []")
  case True
  with assms show ?thesis
    by (simp add: step_def InputForm_def handleScan_start_def handleScan_def)
next
  case False
  obtain c r where f: "fetchData sv input (apiKey a) = (c, r)"
    by (cases "fetchData sv input (apiKey a)")
  show ?thesis
  proof (cases r)
    case (Inl err)
    with assms False f show ?thesis
      by (cases c)
        (simp_all add: step_def InputForm_def handleScan_start_def handleScan_def tryBlock_def
          Let_def)
  next
    case (Inr t)
    note t = this
    show ?thesis
    proof (cases "judgeInput sv t (apiKey a)")
      case (Inl err)
      with assms False f t show ?thesis
        by (cases c)
          (simp_all add: step_def InputForm_def handleScan_start_def handleScan_def
            tryBlock_def Let_def)
    next
      case (Inr v)
      with assms False f t show ?thesis
        by (cases c; cases "generateToyOrCoal sv (visual_prompt v) (apiKey a)")
          (simp_all add: step_def InputForm_def handleScan_start_def handleScan_def
            tryBlock_def Let_def)
    qed
  qed
qed

lemma busySession_eq:
  "busySession =
     (\<lparr> state = \<lparr> status = Judging, error = None, verdict = None, generatedImage = None \<rparr>,
        apiKey = js ''k'', showKeyModal = False, tempKey = js '' k '',
        showExportModal = False, exportPassword = [], passwordError = False,
        localStorage = [js ''GEMINI_API_KEY'' \<mapsto> js ''k''],
        history =
          [NewState \<lparr> status = Fetching_data, error = None, verdict = None, generatedImage = None \<rparr>,
           Called (FetchWikiContent (js ''Rudolph'')),
           NewState \<lparr> status = Judging, error = None, verdict = None, generatedImage = None \<rparr>,
           Called (JudgeInput (js ''Rudolph is a reindeer'') (js ''k''))],
        unmounted = False \<rparr>,
      [AwaitVerdict (js ''k'')
         (Inr \<lparr> classification = js ''nice'', visual_prompt = js ''a toy reindeer'' \<rparr>)])"
  by (simp add: busySession_def mount_def initializeKey_def initialApp_def truthy_def
      saveApiKey_def trim_def is_whitespace_def step_def InputForm_def isProcessing_def
      handleScan_start_def fetchData_def setState_def call_def Let_def)

lemma run_append: "run sv u (acts @ rest) s = run sv u rest (run sv u acts s)"
  by (induction acts arbitrary: s) simp_all

lemma finishedSession_eq:
  "snd finishedSession = [] \<and> status (state (fst finishedSession)) = Complete
   \<and> \<not> unmounted (fst finishedSession)"
  by (simp add: finishedSession_def busySession_eq step_def)

lemma crashedSession_eq:
  "crashedSession =
     (\<lparr> state = \<lparr> status = Fetching_data, error = None, verdict = None, generatedImage = None \<rparr>,
        apiKey = js ''k'', showKeyModal = False, tempKey = js ''k'',
        showExportModal = False, exportPassword = [], passwordError = False,
        localStorage = [js ''GEMINI_API_KEY'' \<mapsto> js ''k''],
        history =
          [NewState \<lparr> status = Fetching_data, error = None, verdict = None, generatedImage = None \<rparr>,
           Called (FetchGithubActivity (js ''santa''))],
        unmounted = True \<rparr>,
      [])"
  by (simp add: crashedSession_def mount_def initializeKey_def initialApp_def truthy_def
      saveApiKey_def trim_def is_whitespace_def step_def InputForm_def isProcessing_def
      handleScan_start_def fetchData_def setState_def call_def Let_def)

section \<open>API key: start-up and saving\<close>

text \<open>
  C9. At start-up the key comes from local storage when a value is stored there, else from
  the build-time default when there is one, else it stays empty; the stored value wins over
  the default. A value is present when it passes JavaScript's test \<open>if (v)\<close>: a stored
  empty string counts as absent, like \<open>null\<close>.
\<close>

theorem initializeKey_stored_first:
  "(store (js ''GEMINI_API_KEY'') = Some k \<and> k \<noteq> [] \<longrightarrow>
      initializeKey envKey (initialApp store) = (initialApp store)\<lparr>apiKey := k\<rparr>) \<and>
   (\<not> truthy (store (js ''GEMINI_API_KEY'')) \<and> envKey = Some e \<and> e \<noteq> [] \<longrightarrow>
      initializeKey envKey (initialApp store) = (initialApp store)\<lparr>apiKey := e\<rparr>) \<and>
   (\<not> truthy (store (js ''GEMINI_API_KEY'')) \<and> \<not> truthy envKey \<longrightarrow>
      initializeKey envKey (initialApp store) = initialApp store
      \<and> apiKey (initializeKey envKey (initialApp store)) = [])"
  by (simp add: initializeKey_def initialApp_def truthy_def)

text \<open>A stored key with a default, a default alone, and neither.\<close>

theorem initializeKey_stored_first_witness:
  "initializeKey (Some (js ''env'')) (initialApp [js ''GEMINI_API_KEY'' \<mapsto> js ''stored''])
     = (initialApp [js ''GEMINI_API_KEY'' \<mapsto> js ''stored''])\<lparr>apiKey := js ''stored''\<rparr>
   \<and> initializeKey (Some (js ''env'')) (initialApp Map.empty)
     = (initialApp Map.empty)\<lparr>apiKey := js ''env''\<rparr>
   \<and> initializeKey None (initialApp Map.empty) = initialApp Map.empty"
  using initializeKey_stored_first [of "[js ''GEMINI_API_KEY'' \<mapsto> js ''stored'']" "js ''stored''" "Some (js ''env'')" "js ''env''"]
    initializeKey_stored_first [of Map.empty "js ''stored''" "Some (js ''env'')" "js ''env''"]
    initializeKey_stored_first [of Map.empty "js ''stored''" None "js ''env''"]
  by (simp add: truthy_def)

text \<open>
  C7. Saving an empty or all-white-space input changes nothing (key, storage and modal).
  Any other input is saved trimmed: the stored key and the in-memory key are the input
  without its leading and trailing white space, and the modal closes; \<open>"  abc  "\<close>
  is saved as \<open>"abc"\<close>.
\<close>

theorem saveApiKey_trims:
  "((\<forall>c\<in>set (tempKey a). is_whitespace c) \<longrightarrow> saveApiKey a = a) \<and>
   ((\<exists>c\<in>set (tempKey a). \<not> is_whitespace c) \<longrightarrow>
      saveApiKey a = a\<lparr> localStorage := (localStorage a)(js ''GEMINI_API_KEY'' \<mapsto> trim (tempKey a)),
                        apiKey := trim (tempKey a), showKeyModal := False \<rparr>
      \<and> trim (tempKey a) \<noteq> []
      \<and> \<not> is_whitespace (hd (trim (tempKey a))) \<and> \<not> is_whitespace (last (trim (tempKey a)))
      \<and> (\<exists>l r. tempKey a = l @ trim (tempKey a) @ r
             \<and> (\<forall>c\<in>set l. is_whitespace c) \<and> (\<forall>c\<in>set r. is_whitespace c))) \<and>
   (tempKey a = js ''  abc  '' \<longrightarrow>
      localStorage (saveApiKey a) (js ''GEMINI_API_KEY'') = Some (js ''abc'')
      \<and> apiKey (saveApiKey a) = js ''abc'' \<and> \<not> showKeyModal (saveApiKey a))"
proof (intro conjI impI)
  assume "\<forall>c\<in>set (tempKey a). is_whitespace c"
  then have "trim (tempKey a) = []" by (simp only: trim_eq_Nil)
  then show "saveApiKey a = a" by (simp add: saveApiKey_def)
next
  assume "\<exists>c\<in>set (tempKey a). \<not> is_whitespace c"
  then have ne: "trim (tempKey a) \<noteq> []" by (simp only: trim_eq_Nil) blast
  then show "saveApiKey a = a\<lparr> localStorage := (localStorage a)(js ''GEMINI_API_KEY'' \<mapsto> trim (tempKey a)),
                        apiKey := trim (tempKey a), showKeyModal := False \<rparr>"
    by (simp add: saveApiKey_def Let_def)
  from ne show "trim (tempKey a) \<noteq> []" .
  from ne show "\<not> is_whitespace (hd (trim (tempKey a)))" by (simp add: trim_ends)
  from ne show "\<not> is_whitespace (last (trim (tempKey a)))" by (simp add: trim_ends)
  show "\<exists>l r. tempKey a = l @ trim (tempKey a) @ r
             \<and> (\<forall>c\<in>set l. is_whitespace c) \<and> (\<forall>c\<in>set r. is_whitespace c)"
    by (rule trim_decompose)
next
  assume t: "tempKey a = js ''  abc  ''"
  have tr: "trim (js ''  abc  '') = js ''abc''" by (simp add: trim_def is_whitespace_def)
  show "localStorage (saveApiKey a) (js ''GEMINI_API_KEY'') = Some (js ''abc'')"
    using tr by (simp add: saveApiKey_def Let_def t)
  show "apiKey (saveApiKey a) = js ''abc''" using tr by (simp add: saveApiKey_def Let_def t)
  show "\<not> showKeyModal (saveApiKey a)" using tr by (simp add: saveApiKey_def Let_def t)
qed

text \<open>The empty input, one space, and \<open>"  abc  "\<close>.\<close>

theorem saveApiKey_trims_witness:
  "saveApiKey (keyModalWith []) = keyModalWith []
   \<and> saveApiKey (keyModalWith (js '' '')) = keyModalWith (js '' '')
   \<and> saveApiKey (keyModalWith (js ''  abc  '')) =
       (keyModalWith (js ''  abc  ''))\<lparr> localStorage := [js ''GEMINI_API_KEY'' \<mapsto> js ''abc''],
           apiKey := js ''abc'', showKeyModal := False \<rparr>"
proof -
  have a: "\<forall>c\<in>set (tempKey (keyModalWith [])). is_whitespace c"
    by (simp add: keyModalWith_def)
  have b: "\<forall>c\<in>set (tempKey (keyModalWith (js '' ''))). is_whitespace c"
    by (simp add: keyModalWith_def is_whitespace_def)
  have c: "\<exists>c\<in>set (tempKey (keyModalWith (js ''  abc  ''))). \<not> is_whitespace c"
    by (simp add: keyModalWith_def is_whitespace_def)
  have tr: "trim (js ''  abc  '') = js ''abc''" by (simp add: trim_def is_whitespace_def)
  from saveApiKey_trims [of "keyModalWith []"] a
  have 1: "saveApiKey (keyModalWith []) = keyModalWith []" by blast
  from saveApiKey_trims [of "keyModalWith (js '' '')"] b
  have 2: "saveApiKey (keyModalWith (js '' '')) = keyModalWith (js '' '')" by blast
  from saveApiKey_trims [of "keyModalWith (js ''  abc  '')"] c
  have "saveApiKey (keyModalWith (js ''  abc  '')) =
       (keyModalWith (js ''  abc  ''))\<lparr> localStorage :=
           (localStorage (keyModalWith (js ''  abc  '')))(js ''GEMINI_API_KEY'' \<mapsto> trim (tempKey (keyModalWith (js ''  abc  '')))),
           apiKey := trim (tempKey (keyModalWith (js ''  abc  ''))), showKeyModal := False \<rparr>"
    by blast
  then have 3: "saveApiKey (keyModalWith (js ''  abc  '')) =
       (keyModalWith (js ''  abc  ''))\<lparr> localStorage := [js ''GEMINI_API_KEY'' \<mapsto> js ''abc''],
           apiKey := js ''abc'', showKeyModal := False \<rparr>"
    using tr by (simp add: keyModalWith_def initialApp_def)
  from 1 2 3 show ?thesis by blast
qed

section \<open>Scans\<close>

text \<open>
  C4. Submitting a scan while the API key is empty opens the key modal and nothing else:
  status, error, verdict and image are as before, and no state is set and no
  external call is made.
\<close>

theorem handleScan_without_key:
  "apiKey a = [] \<Longrightarrow>
     handleScan sv input a = a\<lparr>showKeyModal := True\<rparr>
     \<and> showKeyModal (handleScan sv input a)
     \<and> state (handleScan sv input a) = state a
     \<and> history (handleScan sv input a) = history a"
  by (simp add: handleScan_def)

text \<open>A scan of the page \<open>Rudolph\<close> submitted before any key is set.\<close>

theorem handleScan_without_key_witness:
  "handleScan workshop (scanOf ''wiki'' ''Rudolph'') (withKey [])
     = (withKey [])\<lparr>showKeyModal := True\<rparr>"
  using handleScan_without_key [of "withKey []" workshop "scanOf ''wiki'' ''Rudolph''"]
  by (simp add: withKey_def)

text \<open>
  C3. The fetch step dispatches on the source type: \<open>wiki\<close> calls the encyclopedia fetch
  with the content, \<open>github\<close> the source-control fetch with the content, \<open>reddit\<close> the
  social-media fetch with the content and the API key, \<open>news\<close> the deep-research call
  with the content and the API key; the text the fetch resolves to is what the judge is
  called with. Any other type makes no fetch call, and the judge is called with the raw
  content.
\<close>

theorem handleScan_dispatch:
  assumes "apiKey a \<noteq> []"
  shows
   "(type input = js ''wiki'' \<longrightarrow>
       calls (scanEvents sv input a) = FetchWikiContent (content input) #
         (case fetchWikiContent sv (content input) of
            Inl err \<Rightarrow> [] | Inr t \<Rightarrow> judgeCalls sv t (apiKey a))) \<and>
    (type input = js ''github'' \<longrightarrow>
       calls (scanEvents sv input a) = FetchGithubActivity (content input) #
         (case fetchGithubActivity sv (content input) of
            Inl err \<Rightarrow> [] | Inr t \<Rightarrow> judgeCalls sv t (apiKey a))) \<and>
    (type input = js ''reddit'' \<longrightarrow>
       calls (scanEvents sv input a) = FetchRedditActivity (content input) (apiKey a) #
         (case fetchRedditActivity sv (content input) (apiKey a) of
            Inl err \<Rightarrow> [] | Inr t \<Rightarrow> judgeCalls sv t (apiKey a))) \<and>
    (type input = js ''news'' \<longrightarrow>
       calls (scanEvents sv input a) = PerformDeepResearch (content input) (apiKey a) #
         (case performDeepResearch sv (content input) (apiKey a) of
            Inl err \<Rightarrow> [] | Inr t \<Rightarrow> judgeCalls sv t (apiKey a))) \<and>
    (type input \<noteq> js ''wiki'' \<and> type input \<noteq> js ''github'' \<and> type input \<noteq> js ''reddit''
       \<and> type input \<noteq> js ''news'' \<longrightarrow>
       calls (scanEvents sv input a) = judgeCalls sv (content input) (apiKey a))"
  by (simp add: scanEvents_calls [OF assms] fetchData_def)

text \<open>One scan of each type, and one of an unknown type.\<close>

theorem handleScan_dispatch_witness:
  "calls (scanEvents workshop (scanOf ''wiki'' ''Rudolph'') (withKey (js ''k''))) =
     [FetchWikiContent (js ''Rudolph''), JudgeInput (js ''Rudolph is a reindeer'') (js ''k''),
      GenerateToyOrCoal (js ''a toy reindeer'') (js ''k'')]
   \<and> calls (scanEvents workshop (scanOf ''github'' ''santa'') (withKey (js ''k''))) =
     [FetchGithubActivity (js ''santa'')]
   \<and> calls (scanEvents workshop (scanOf ''reddit'' ''santa'') (withKey (js ''k''))) =
     [FetchRedditActivity (js ''santa'') (js ''k'')]
   \<and> calls (scanEvents workshop (scanOf ''news'' ''sleigh'') (withKey (js ''k''))) =
     [PerformDeepResearch (js ''sleigh'') (js ''k''), JudgeInput (js ''Reindeer news'') (js ''k''),
      GenerateToyOrCoal (js ''a toy reindeer'') (js ''k'')]
   \<and> calls (scanEvents workshop (scanOf ''text'' ''Rudolph'') (withKey (js ''k''))) =
     [JudgeInput (js ''Rudolph'') (js ''k''), GenerateToyOrCoal (js ''a toy reindeer'') (js ''k'')]"
proof -
  have k: "apiKey (withKey (js ''k'')) \<noteq> []" by simp
  show ?thesis
    using handleScan_dispatch [OF k, of "scanOf ''wiki'' ''Rudolph''" workshop]
      handleScan_dispatch [OF k, of "scanOf ''github'' ''santa''" workshop]
      handleScan_dispatch [OF k, of "scanOf ''reddit'' ''santa''" workshop]
      handleScan_dispatch [OF k, of "scanOf ''news'' ''sleigh''" workshop]
      handleScan_dispatch [OF k, of "scanOf ''text'' ''Rudolph''" workshop]
    by (simp add: judgeCalls_def)
qed

text \<open>
  When the fetch, the judge or the image call of a scan throws a value other than \<open>null\<close>
  and \<open>undefined\<close>, the scan ends with status \<open>error\<close> and an error that is not the empty
  string: the message of the thrown value, or \<open>Something went wrong in the workshop.\<close>
  when that message is falsy (absent or empty). The verdict and the image are those of the
  state set just before the failure: the image is empty, and the verdict is set exactly
  when the judge had answered, that is, when only the image call failed.
\<close>

lemma handleScan_catches_message:
  assumes key: "apiKey a \<noteq> []"
    and threw:
      "snd (fetchData sv input (apiKey a)) = Inl (Thrown m)
       \<or> (\<exists>t. snd (fetchData sv input (apiKey a)) = Inr t
              \<and> judgeInput sv t (apiKey a) = Inl (Thrown m))
       \<or> (\<exists>t v. snd (fetchData sv input (apiKey a)) = Inr t
              \<and> judgeInput sv t (apiKey a) = Inr v
              \<and> generateToyOrCoal sv (visual_prompt v) (apiKey a) = Inl (Thrown m))"
  shows
    "status (state (handleScan sv input a)) = Error
     \<and> error (state (handleScan sv input a)) = Some (errorMessage m)
     \<and> errorMessage m \<noteq> Str []
     \<and> (\<forall>t. m = Text t \<and> t \<noteq> [] \<longrightarrow> errorMessage m = Str t)
     \<and> (m = Falsy \<or> m = Text [] \<longrightarrow>
            errorMessage m = Str (js ''Something went wrong in the workshop.''))
     \<and> (\<forall>n. m = Truthy n \<longrightarrow> errorMessage m = Val n)
     \<and> last (states (scanEvents sv input a)) = state (handleScan sv input a)
     \<and> verdict (last (butlast (states (scanEvents sv input a))))
           = verdict (state (handleScan sv input a))
     \<and> generatedImage (last (butlast (states (scanEvents sv input a))))
           = generatedImage (state (handleScan sv input a))
     \<and> generatedImage (state (handleScan sv input a)) = None
     \<and> (\<forall>t v. snd (fetchData sv input (apiKey a)) = Inr t \<and> judgeInput sv t (apiKey a) = Inr v
            \<longrightarrow> verdict (state (handleScan sv input a)) = Some v)
     \<and> (snd (fetchData sv input (apiKey a)) = Inl (Thrown m)
          \<or> (\<exists>t. snd (fetchData sv input (apiKey a)) = Inr t
                 \<and> judgeInput sv t (apiKey a) = Inl (Thrown m))
            \<longrightarrow> verdict (state (handleScan sv input a)) = None)
     \<and> unmounted (handleScan sv input a) = unmounted a"
proof -
  note msg = errorMessage_cases [of m]
  from threw consider
      (fetch) c where "fetchData sv input (apiKey a) = (c, Inl (Thrown m))"
    | (judge) c t where "fetchData sv input (apiKey a) = (c, Inr t)"
        "judgeInput sv t (apiKey a) = Inl (Thrown m)"
    | (image) c t v where "fetchData sv input (apiKey a) = (c, Inr t)"
        "judgeInput sv t (apiKey a) = Inr v"
        "generateToyOrCoal sv (visual_prompt v) (apiKey a) = Inl (Thrown m)"
    by (cases "fetchData sv input (apiKey a)") auto
  then show ?thesis
  proof cases
    case fetch
    from handleScan_fetch_throws [OF key fetch] fetch msg show ?thesis
      by (simp add: scanEvents_def butlast_append)
  next
    case judge
    from handleScan_judge_throws [OF key judge] judge msg show ?thesis
      by (simp add: scanEvents_def butlast_append)
  next
    case image
    from handleScan_image_throws [OF key image] image msg show ?thesis
      by (simp add: scanEvents_def butlast_append)
  qed
qed

text \<open>
  C1. The claim is that whenever the fetch, the judge or the image call throws, the scan
  ends with status \<open>error\<close> and a non-empty error message, the fallback included. The
  code does not do so when the thrown value is \<open>null\<close> or \<open>undefined\<close>: the updater of the
  \<open>catch\<close> block reads \<open>err.message\<close> and throws. Here the source-control call rejects
  with \<open>null\<close>: after the scan the status is still \<open>fetching_data\<close>, the error is still
  empty, no error state was ever set, and the component is unmounted.
\<close>

theorem handleScan_null_rejection:
  "observe (handleScan silentWorkshop (scanOf ''github'' ''santa'') (withKey (js ''k'')))
     = (Fetching_data, None, None, None)
   \<and> status (state (handleScan silentWorkshop (scanOf ''github'' ''santa'') (withKey (js ''k''))))
       \<noteq> Error
   \<and> unmounted (handleScan silentWorkshop (scanOf ''github'' ''santa'') (withKey (js ''k'')))
   \<and> scanEvents silentWorkshop (scanOf ''github'' ''santa'') (withKey (js ''k'')) =
       [NewState \<lparr> status = Fetching_data, error = None, verdict = None, generatedImage = None \<rparr>,
        Called (FetchGithubActivity (js ''santa''))]"
proof -
  have k: "apiKey (withKey (js ''k'')) \<noteq> []" by simp
  have f: "fetchData silentWorkshop (scanOf ''github'' ''santa'') (apiKey (withKey (js ''k'')))
             = (Some (FetchGithubActivity (js ''santa'')), Inl Nullish)"
    by (simp add: fetchData_def)
  from handleScan_fetch_throws [OF k f] show ?thesis
    by (simp add: observe_def scanEvents_def fetchEvents_def)
qed

text \<open>
  C2. A scan in which nothing throws sets the statuses \<open>fetching_data\<close>, \<open>judging\<close>,
  \<open>generating_image\<close>, \<open>complete\<close>, in this order and no others. The verdict enters
  the state with \<open>generating_image\<close>, before the image call is made, and the image
  enters it with \<open>complete\<close>.
\<close>

theorem handleScan_phases:
  assumes key: "apiKey a \<noteq> []"
    and fetched: "snd (fetchData sv input (apiKey a)) = Inr t"
    and judged: "judgeInput sv t (apiKey a) = Inr v"
    and drawn: "generateToyOrCoal sv (visual_prompt v) (apiKey a) = Inr img"
  shows
    "map status (states (scanEvents sv input a))
       = [Fetching_data, Judging, Generating_image, Complete]
     \<and> scanEvents sv input a =
         [NewState \<lparr> status = Fetching_data, error = None, verdict = None, generatedImage = None \<rparr>]
         @ fetchEvents (fst (fetchData sv input (apiKey a)))
         @ [NewState \<lparr> status = Judging, error = None, verdict = None, generatedImage = None \<rparr>,
            Called (JudgeInput t (apiKey a)),
            NewState \<lparr> status = Generating_image, error = None, verdict = Some v, generatedImage = None \<rparr>,
            Called (GenerateToyOrCoal (visual_prompt v) (apiKey a)),
            NewState \<lparr> status = Complete, error = None, verdict = Some v, generatedImage = Some img \<rparr>]
     \<and> state (handleScan sv input a) =
         \<lparr> status = Complete, error = None, verdict = Some v, generatedImage = Some img \<rparr>"
proof -
  obtain c where c: "fetchData sv input (apiKey a) = (c, Inr t)"
    using fetched by (cases "fetchData sv input (apiKey a)") simp
  from handleScan_completes [OF key c judged drawn] c show ?thesis
    by (simp add: scanEvents_def)
qed

text \<open>The scan of the page \<open>Rudolph\<close>, event by event.\<close>

theorem handleScan_phases_witness:
  "scanEvents workshop (scanOf ''wiki'' ''Rudolph'') (withKey (js ''k'')) =
     [NewState \<lparr> status = Fetching_data, error = None, verdict = None, generatedImage = None \<rparr>,
      Called (FetchWikiContent (js ''Rudolph'')),
      NewState \<lparr> status = Judging, error = None, verdict = None, generatedImage = None \<rparr>,
      Called (JudgeInput (js ''Rudolph is a reindeer'') (js ''k'')),
      NewState \<lparr> status = Generating_image, error = None,
        verdict = Some \<lparr> classification = js ''nice'', visual_prompt = js ''a toy reindeer'' \<rparr>,
        generatedImage = None \<rparr>,
      Called (GenerateToyOrCoal (js ''a toy reindeer'') (js ''k'')),
      NewState \<lparr> status = Complete, error = None,
        verdict = Some \<lparr> classification = js ''nice'', visual_prompt = js ''a toy reindeer'' \<rparr>,
        generatedImage = Some (js ''iVBORw0KGgo='') \<rparr>]"
proof -
  let ?a = "withKey (js ''k'')"
  let ?v = "\<lparr> classification = js ''nice'', visual_prompt = js ''a toy reindeer'' \<rparr>"
  have 1: "apiKey ?a \<noteq> []" by simp
  have 2: "snd (fetchData workshop (scanOf ''wiki'' ''Rudolph'') (apiKey ?a))
             = Inr (js ''Rudolph is a reindeer'')"
    by (simp add: fetchData_def)
  have 3: "judgeInput workshop (js ''Rudolph is a reindeer'') (apiKey ?a) = Inr ?v" by simp
  have 4: "generateToyOrCoal workshop (visual_prompt ?v) (apiKey ?a) = Inr (js ''iVBORw0KGgo='')"
    by simp
  have 5: "fst (fetchData workshop (scanOf ''wiki'' ''Rudolph'') (apiKey ?a))
             = Some (FetchWikiContent (js ''Rudolph''))"
    by (simp add: fetchData_def)
  from handleScan_phases [OF 1 2 3 4] 5 show ?thesis
    by (simp add: fetchEvents_def)
qed

text \<open>
  C6. With a key present, whatever state the app is in (a finished scan or a failed
  one), a submission first sets the state to status \<open>fetching_data\<close> with error, verdict
  and image cleared. This is the first event the scan adds to the log; it is the state of
  the component when the handler stops at the \<open>await\<close> of its fetch (for a type without
  a fetch the handler goes on to \<open>judging\<close> before it stops, the three fields still
  cleared); and nothing of the state before the submission is left in what the handler
  returns: the result is the same from any prior state.
\<close>

theorem handleScan_resets:
  assumes "apiKey a \<noteq> []"
  shows "history (handleScan sv input a) = history a @ scanEvents sv input a
     \<and> take 1 (scanEvents sv input a) =
         [NewState \<lparr> status = Fetching_data, error = None, verdict = None, generatedImage = None \<rparr>]
     \<and> last (states (scanEvents sv input a)) = state (handleScan sv input a)
     \<and> (type input = js ''wiki'' \<or> type input = js ''github'' \<or> type input = js ''reddit''
          \<or> type input = js ''news'' \<longrightarrow>
          state (fst (handleScan_start sv input a)) =
            \<lparr> status = Fetching_data, error = None, verdict = None, generatedImage = None \<rparr>)
     \<and> (type input \<noteq> js ''wiki'' \<and> type input \<noteq> js ''github'' \<and> type input \<noteq> js ''reddit''
          \<and> type input \<noteq> js ''news'' \<longrightarrow>
          state (fst (handleScan_start sv input a)) =
            \<lparr> status = Judging, error = None, verdict = None, generatedImage = None \<rparr>)
     \<and> handleScan sv input (a\<lparr>state := s\<rparr>) = handleScan sv input a"
proof -
  have log: "history (handleScan sv input a) = history a @ scanEvents sv input a
     \<and> take 1 (scanEvents sv input a) =
         [NewState \<lparr> status = Fetching_data, error = None, verdict = None, generatedImage = None \<rparr>]
     \<and> last (states (scanEvents sv input a)) = state (handleScan sv input a)"
  proof (cases rule: scan_outcomes [of sv input "apiKey a"])
    case (fetch_throws c err)
    with assms show ?thesis
      by (cases err) (simp_all add: scanEvents_def handleScan_fetch_throws)
  next
    case (judge_throws c t err)
    with assms show ?thesis
      by (cases err) (simp_all add: scanEvents_def handleScan_judge_throws)
  next
    case (image_throws c t v err)
    with assms show ?thesis
      by (cases err) (simp_all add: scanEvents_def handleScan_image_throws)
  next
    case (completes c t v img)
    with assms show ?thesis by (simp add: scanEvents_def handleScan_completes)
  qed
  have start: "(type input = js ''wiki'' \<or> type input = js ''github''
          \<or> type input = js ''reddit'' \<or> type input = js ''news'' \<longrightarrow>
          state (fst (handleScan_start sv input a)) =
            \<lparr> status = Fetching_data, error = None, verdict = None, generatedImage = None \<rparr>)
     \<and> (type input \<noteq> js ''wiki'' \<and> type input \<noteq> js ''github'' \<and> type input \<noteq> js ''reddit''
          \<and> type input \<noteq> js ''news'' \<longrightarrow>
          state (fst (handleScan_start sv input a)) =
            \<lparr> status = Judging, error = None, verdict = None, generatedImage = None \<rparr>)"
    using assms
    by (cases "state a") (auto simp add: handleScan_start_def fetchData_def Let_def)
  from log start handleScan_forgets [OF assms] show ?thesis by blast
qed

text \<open>A new scan after a failed one that left an error, a verdict and an image.\<close>

theorem handleScan_resets_witness:
  "take 1 (scanEvents workshop (scanOf ''github'' ''santa'') afterError) =
     [NewState \<lparr> status = Fetching_data, error = None, verdict = None, generatedImage = None \<rparr>]
   \<and> state (fst (handleScan_start workshop (scanOf ''github'' ''santa'') afterError)) =
       \<lparr> status = Fetching_data, error = None, verdict = None, generatedImage = None \<rparr>
   \<and> state (fst (handleScan_start workshop (scanOf ''text'' ''Rudolph'') afterError)) =
       \<lparr> status = Judging, error = None, verdict = None, generatedImage = None \<rparr>
   \<and> handleScan workshop (scanOf ''github'' ''santa'') afterError =
       handleScan workshop (scanOf ''github'' ''santa'') (withKey (js ''k''))"
proof -
  let ?old = "\<lparr> status = Error, error = Some (Str (js ''User not found'')),
       verdict = Some \<lparr> classification = js ''naughty'', visual_prompt = js ''a lump of coal'' \<rparr>,
       generatedImage = Some (js ''b2xk'') \<rparr>"
  have k: "apiKey afterError \<noteq> []" by (simp add: afterError_def)
  have k': "apiKey (withKey (js ''k'')) \<noteq> []" by simp
  have 1: "take 1 (scanEvents workshop (scanOf ''github'' ''santa'') afterError) =
     [NewState \<lparr> status = Fetching_data, error = None, verdict = None, generatedImage = None \<rparr>]
   \<and> state (fst (handleScan_start workshop (scanOf ''github'' ''santa'') afterError)) =
       \<lparr> status = Fetching_data, error = None, verdict = None, generatedImage = None \<rparr>"
    using handleScan_resets [OF k, of workshop "scanOf ''github'' ''santa''"] by simp
  have 2: "state (fst (handleScan_start workshop (scanOf ''text'' ''Rudolph'') afterError)) =
       \<lparr> status = Judging, error = None, verdict = None, generatedImage = None \<rparr>"
    using handleScan_resets [OF k, of workshop "scanOf ''text'' ''Rudolph''"] by simp
  have 3: "handleScan workshop (scanOf ''github'' ''santa'') afterError =
       handleScan workshop (scanOf ''github'' ''santa'') (withKey (js ''k''))"
    using handleScan_resets [OF k', of workshop "scanOf ''github'' ''santa''" ?old]
    by (simp add: afterError_def)
  from 1 2 3 show ?thesis by blast
qed

text \<open>
  With a key present, the handler always returns, and it leaves the status \<open>complete\<close> or
  \<open>error\<close> unless one of the three calls throws \<open>null\<close> or \<open>undefined\<close>; then it leaves
  the working phase of that call and the component unmounted. The external calls are
  taken to answer (to resolve or to reject); a call that never answers leaves the handler
  suspended, which is no return.
\<close>

lemma handleScan_ends_or_unmounts:
  assumes "apiKey a \<noteq> []"
  shows "status (state (handleScan sv input a)) = Complete
     \<or> status (state (handleScan sv input a)) = Error
     \<or> (isProcessing (handleScan sv input a) \<and> unmounted (handleScan sv input a)
         \<and> (snd (fetchData sv input (apiKey a)) = Inl Nullish
             \<or> (\<exists>t. snd (fetchData sv input (apiKey a)) = Inr t
                    \<and> (judgeInput sv t (apiKey a) = Inl Nullish
                        \<or> (\<exists>v. judgeInput sv t (apiKey a) = Inr v
                               \<and> generateToyOrCoal sv (visual_prompt v) (apiKey a)
                                   = Inl Nullish)))))"
proof (cases rule: scan_outcomes [of sv input "apiKey a"])
  case (fetch_throws c err)
  with assms show ?thesis
    by (cases err) (simp_all add: handleScan_fetch_throws isProcessing_def)
next
  case (judge_throws c t err)
  with assms show ?thesis
    by (cases err) (simp_all add: handleScan_judge_throws isProcessing_def)
next
  case (image_throws c t v err)
  with assms show ?thesis
    by (cases err) (simp_all add: handleScan_image_throws isProcessing_def)
next
  case (completes c t v img)
  with assms show ?thesis by (simp add: handleScan_completes)
qed

text \<open>
  C10. The claim is that with a key present every execution of the handler ends with
  status \<open>complete\<close> or \<open>error\<close>. The code does not do so when a call rejects with \<open>null\<close>
  or \<open>undefined\<close>: the handler catches the value and returns, but the updater it gave to
  \<open>setState\<close> throws on \<open>err.message\<close>. Here the image call rejects with \<open>undefined\<close>:
  the handler has returned, the status is left at \<open>generating_image\<close>, a working phase,
  and the component is unmounted.
\<close>

theorem handleScan_stuck_working:
  "status (state (handleScan silentWorkshop (scanOf ''wiki'' ''Rudolph'') (withKey (js ''k''))))
     = Generating_image
   \<and> isProcessing (handleScan silentWorkshop (scanOf ''wiki'' ''Rudolph'') (withKey (js ''k'')))
   \<and> unmounted (handleScan silentWorkshop (scanOf ''wiki'' ''Rudolph'') (withKey (js ''k'')))
   \<and> calls (scanEvents silentWorkshop (scanOf ''wiki'' ''Rudolph'') (withKey (js ''k''))) =
       [FetchWikiContent (js ''Rudolph''), JudgeInput (js ''Rudolph is a reindeer'') (js ''k''),
        GenerateToyOrCoal (js ''a toy reindeer'') (js ''k'')]"
proof -
  let ?v = "\<lparr> classification = js ''nice'', visual_prompt = js ''a toy reindeer'' \<rparr>"
  have k: "apiKey (withKey (js ''k'')) \<noteq> []" by simp
  have f: "fetchData silentWorkshop (scanOf ''wiki'' ''Rudolph'') (apiKey (withKey (js ''k'')))
             = (Some (FetchWikiContent (js ''Rudolph'')), Inr (js ''Rudolph is a reindeer''))"
    by (simp add: fetchData_def)
  have j: "judgeInput silentWorkshop (js ''Rudolph is a reindeer'') (apiKey (withKey (js ''k'')))
             = Inr ?v"
    by simp
  have g: "generateToyOrCoal silentWorkshop (visual_prompt ?v) (apiKey (withKey (js ''k'')))
             = Inl Nullish"
    by simp
  from handleScan_image_throws [OF k f j g] show ?thesis
    by (simp add: isProcessing_def scanEvents_def fetchEvents_def)
qed

section \<open>Export gate\<close>

text \<open>
  C8. The unlock succeeds exactly when the entered password equals \<open>HOHOHO\<close>
  case-insensitively: then the download is triggered and the export modal closes. For any
  other password the error flag is set, and no download is triggered. The runtime's
  Unicode table is any table in which the upper-case form of a character from 128 on
  contains a character other than \<open>H\<close> (72) and \<open>O\<close> (79).
\<close>

theorem handleUnlockSleigh_password:
  assumes runtime: "\<And>c. 128 \<le> c \<Longrightarrow> \<exists>d\<in>set (unicodeUpper c). d \<noteq> 72 \<and> d \<noteq> 79"
  shows
    "(equalsIgnoringCase (exportPassword a) (js ''HOHOHO'') \<longrightarrow>
        handleUnlockSleigh unicodeUpper a =
          a\<lparr> history := history a @ [Called DownloadRepo], showExportModal := False \<rparr>) \<and>
     (\<not> equalsIgnoringCase (exportPassword a) (js ''HOHOHO'') \<longrightarrow>
        handleUnlockSleigh unicodeUpper a = a\<lparr> passwordError := True \<rparr>)"
  using unlock_iff [where u = unicodeUpper and s = "exportPassword a", OF runtime]
  by (simp add: handleUnlockSleigh_def call_def)

text \<open>The passwords \<open>hohoho\<close>, \<open>HOHOHO\<close>, \<open>HoHoHo\<close> and \<open>xmas\<close>.\<close>

theorem handleUnlockSleigh_password_witness:
  "handleUnlockSleigh keepNonAscii (exportModalWith (js ''hohoho'')) =
     (exportModalWith (js ''hohoho''))\<lparr> history := [Called DownloadRepo], showExportModal := False \<rparr>
   \<and> handleUnlockSleigh keepNonAscii (exportModalWith (js ''HOHOHO'')) =
     (exportModalWith (js ''HOHOHO''))\<lparr> history := [Called DownloadRepo], showExportModal := False \<rparr>
   \<and> handleUnlockSleigh keepNonAscii (exportModalWith (js ''HoHoHo'')) =
     (exportModalWith (js ''HoHoHo''))\<lparr> history := [Called DownloadRepo], showExportModal := False \<rparr>
   \<and> handleUnlockSleigh keepNonAscii (exportModalWith (js ''xmas'')) =
     (exportModalWith (js ''xmas''))\<lparr> passwordError := True \<rparr>"
proof -
  have runtime: "\<And>c. 128 \<le> c \<Longrightarrow> \<exists>d\<in>set (keepNonAscii c). d \<noteq> 72 \<and> d \<noteq> 79"
    by (simp add: keepNonAscii_def)
  have p: "exportPassword (exportModalWith p) = p" "history (exportModalWith p) = []" for p
    by (simp_all add: exportModalWith_def initialApp_def)
  have 1: "equalsIgnoringCase (js ''hohoho'') (js ''HOHOHO'')"
    by (simp add: equalsIgnoringCase_def sameLetter_def)
  have 2: "equalsIgnoringCase (js ''HOHOHO'') (js ''HOHOHO'')"
    by (simp add: equalsIgnoringCase_def sameLetter_def)
  have 3: "equalsIgnoringCase (js ''HoHoHo'') (js ''HOHOHO'')"
    by (simp add: equalsIgnoringCase_def sameLetter_def)
  have 4: "\<not> equalsIgnoringCase (js ''xmas'') (js ''HOHOHO'')"
    by (simp add: equalsIgnoringCase_def sameLetter_def)
  from handleUnlockSleigh_password [where unicodeUpper = keepNonAscii and a = "exportModalWith (js ''hohoho'')", OF runtime]
    handleUnlockSleigh_password [where unicodeUpper = keepNonAscii and a = "exportModalWith (js ''HOHOHO'')", OF runtime]
    handleUnlockSleigh_password [where unicodeUpper = keepNonAscii and a = "exportModalWith (js ''HoHoHo'')", OF runtime]
    handleUnlockSleigh_password [where unicodeUpper = keepNonAscii and a = "exportModalWith (js ''xmas'')", OF runtime]
    1 2 3 4
  show ?thesis by (simp add: p)
qed

section \<open>Scans in flight\<close>

text \<open>
  C5. In every state the component can reach from mount (by submissions, answers of
  awaited calls, and any use of the two modals), the input form is disabled exactly when
  the status is \<open>fetching_data\<close>, \<open>judging\<close> or \<open>generating_image\<close>. At most one scan
  is in flight, and while one is the form is disabled and a submission changes nothing.
  While the component is mounted the form is disabled only while a scan is in flight, and
  once none is in flight the status is \<open>idle\<close>, \<open>complete\<close> or \<open>error\<close>. The component is
  unmounted only by a scan whose call rejected with \<open>null\<close> or \<open>undefined\<close>: then no scan
  is in flight and no submission is accepted any more.
\<close>

theorem one_scan_in_flight:
  "(case run sv u acts (mount envKey store) of
      (a, ps) \<Rightarrow>
        (isProcessing a \<longleftrightarrow>
           status (state a) = Fetching_data \<or> status (state a) = Judging
           \<or> status (state a) = Generating_image)
        \<and> length ps \<le> 1
        \<and> (ps \<noteq> [] \<longrightarrow> isProcessing a \<and> \<not> unmounted a)
        \<and> (\<not> unmounted a \<longrightarrow> (isProcessing a \<longleftrightarrow> ps \<noteq> []))
        \<and> (isProcessing a \<longrightarrow> step sv u (Submit input) (a, ps) = (a, ps))
        \<and> (\<not> unmounted a \<longrightarrow> ps = [] \<longrightarrow>
             status (state a) = Idle \<or> status (state a) = Complete \<or> status (state a) = Error)
        \<and> (unmounted a \<longrightarrow> ps = [] \<and> step sv u (Submit input) (a, ps) = (a, ps)))"
proof -
  obtain a ps where r: "run sv u acts (mount envKey store) = (a, ps)"
    by (cases "run sv u acts (mount envKey store)")
  have "oneScan (run sv u acts (mount envKey store))"
    by (rule oneScan_run) (rule oneScan_mount)
  with r have inv: "oneScan (a, ps)" by simp
  have 1: "length ps \<le> 1" using inv
    by (cases ps; cases "tl ps") (auto simp add: oneScan_def)
  have 2: "ps \<noteq> [] \<longrightarrow> isProcessing a \<and> \<not> unmounted a" using inv phase_working
    by (cases ps; cases "tl ps") (auto simp add: oneScan_def isProcessing_def)
  have 3: "\<not> unmounted a \<longrightarrow> (isProcessing a \<longleftrightarrow> ps \<noteq> [])" using inv 2
    by (cases ps) (auto simp add: oneScan_def)
  have 4: "\<not> unmounted a \<longrightarrow> ps = [] \<longrightarrow>
      status (state a) = Idle \<or> status (state a) = Complete \<or> status (state a) = Error"
    using 3 by (cases "status (state a)") (auto simp add: isProcessing_def)
  have 5: "unmounted a \<longrightarrow> ps = []" using inv by (auto dest: oneScan_unmounted)
  have 6: "isProcessing a \<or> unmounted a \<longrightarrow> step sv u (Submit input) (a, ps) = (a, ps)"
    by (simp add: step_def InputForm_def)
  from r 1 2 3 4 5 6 show ?thesis by (simp add: isProcessing_def)
qed

text \<open>
  While the judge is awaited, the form is disabled and a further submission is ignored;
  when the scan has finished, no scan is in flight and the form is enabled; after a call
  has rejected with \<open>null\<close>, the component is unmounted and no scan is in flight.
\<close>

theorem one_scan_in_flight_witness:
  "isProcessing (fst busySession) \<and> length (snd busySession) = 1
   \<and> step workshop keepNonAscii (Submit (scanOf ''reddit'' ''santa'')) busySession = busySession
   \<and> snd finishedSession = [] \<and> \<not> isProcessing (fst finishedSession)
   \<and> status (state (fst finishedSession)) = Complete
   \<and> unmounted (fst crashedSession) \<and> snd crashedSession = []
   \<and> step silentWorkshop keepNonAscii (Submit (scanOf ''wiki'' ''Rudolph'')) crashedSession
       = crashedSession"
proof -
  let ?acts = "[OpenKeyModal, TypeKey (js '' k ''), SaveKey,
    Submit (scanOf ''wiki'' ''Rudolph''), Submit (scanOf ''github'' ''santa''), Settle 0]"
  have d: "isProcessing (fst busySession)"
    by (simp add: busySession_eq isProcessing_def)
  have l: "length (snd busySession) = 1" by (simp add: busySession_eq)
  from one_scan_in_flight [where sv = workshop and u = keepNonAscii and acts = ?acts
      and envKey = None and store = Map.empty and input = "scanOf ''reddit'' ''santa''"] d l
  have busy: "isProcessing (fst busySession) \<and> length (snd busySession) = 1
    \<and> step workshop keepNonAscii (Submit (scanOf ''reddit'' ''santa'')) busySession = busySession"
    by (cases busySession) (simp add: busySession_def)
  have f: "finishedSession =
      run workshop keepNonAscii (?acts @ [Settle 0, Settle 0]) (mount None Map.empty)"
    unfolding run_append by (simp only: finishedSession_def busySession_def)
  obtain a ps where fs: "finishedSession = (a, ps)" by (cases finishedSession)
  have fin: "ps = []" "status (state a) = Complete" "\<not> unmounted a"
    using finishedSession_eq unfolding fs by simp_all
  from one_scan_in_flight [where sv = workshop and u = keepNonAscii
      and acts = "?acts @ [Settle 0, Settle 0]" and envKey = None and store = Map.empty
      and input = "scanOf ''reddit'' ''santa''"]
  have "\<not> unmounted a \<longrightarrow> (isProcessing a \<longleftrightarrow> ps \<noteq> [])"
    unfolding f [symmetric] fs by blast
  with fin have finished: "snd finishedSession = [] \<and> \<not> isProcessing (fst finishedSession)
    \<and> status (state (fst finishedSession)) = Complete"
    unfolding fs by simp
  obtain b qs where cs: "crashedSession = (b, qs)" by (cases crashedSession)
  have u: "unmounted b" using crashedSession_eq unfolding cs by simp
  from one_scan_in_flight [where sv = silentWorkshop and u = keepNonAscii
      and acts = "[OpenKeyModal, TypeKey (js ''k''), SaveKey,
        Submit (scanOf ''github'' ''santa''), Settle 0]"
      and envKey = None and store = Map.empty and input = "scanOf ''wiki'' ''Rudolph''"]
  have "unmounted b \<longrightarrow>
      qs = [] \<and> step silentWorkshop keepNonAscii (Submit (scanOf ''wiki'' ''Rudolph'')) (b, qs) = (b, qs)"
    unfolding crashedSession_def [symmetric] cs by blast
  with u have crashed: "unmounted (fst crashedSession) \<and> snd crashedSession = []
    \<and> step silentWorkshop keepNonAscii (Submit (scanOf ''wiki'' ''Rudolph'')) crashedSession
        = crashedSession"
    unfolding cs by auto
  from busy finished crashed show ?thesis by blast
qed

end
